theory Spec2Isabelle
  imports Complex_Main "HOL-Library.Signed_Division" "HOL-Library.Word" "HOL-Library.List_Lexorder"
begin

section \<open>Data model\<close>

text \<open>
  Python integers are unbounded, so amounts and reserves are \<^typ>\<open>int\<close>.
  The fee is a \<^verbatim>\<open>fractions.Fraction\<close>; the swap functions read only its
  \<^verbatim>\<open>numerator\<close> and \<^verbatim>\<open>denominator\<close> attributes.
\<close>

record Fraction =
  numerator :: int
  denominator :: int

text \<open>
  The only exception the swap functions of \<^verbatim>\<open>v2_functions.py\<close> can raise themselves
  is the one Python's \<^verbatim>\<open>//\<close> raises on a zero divisor.
\<close>

datatype error = ZeroDivisionError

section \<open>Swap arithmetic\<close>

text \<open>
  Python's \<^verbatim>\<open>a // b\<close> on integers: floor division, raising on \<^verbatim>\<open>b == 0\<close>.
  HOL's \<^term>\<open>(div)\<close> on \<^typ>\<open>int\<close> floors as well but yields \<open>0\<close> for a zero divisor.
\<close>

definition floordiv :: "int \<Rightarrow> int \<Rightarrow> error + int" where
  "floordiv a b = (if b = 0 then Inl ZeroDivisionError else Inr (a div b))"

text \<open>
  \<^verbatim>\<open>
  return (amount_in * (fee.denominator - fee.numerator) * reserves_out) // (
      reserves_in * fee.denominator + amount_in * (fee.denominator - fee.numerator)
  )
  \<close>
\<close>

definition constant_product_calc_exact_in :: "int \<Rightarrow> int \<Rightarrow> int \<Rightarrow> Fraction \<Rightarrow> error + int" where
  "constant_product_calc_exact_in amount_in reserves_in reserves_out fee =
     floordiv (amount_in * (denominator fee - numerator fee) * reserves_out)
       (reserves_in * denominator fee + amount_in * (denominator fee - numerator fee))"

text \<open>
  \<^verbatim>\<open>
  return 1 + (reserves_in * amount_out * fee.denominator) // (
      (reserves_out - amount_out) * (fee.denominator - fee.numerator)
  )
  \<close>
\<close>

definition constant_product_calc_exact_out :: "int \<Rightarrow> int \<Rightarrow> int \<Rightarrow> Fraction \<Rightarrow> error + int" where
  "constant_product_calc_exact_out amount_out reserves_in reserves_out fee =
     (case floordiv (reserves_in * amount_out * denominator fee)
             ((reserves_out - amount_out) * (denominator fee - numerator fee)) of
        Inl e \<Rightarrow> Inl e
      | Inr q \<Rightarrow> Inr (1 + q))"

text \<open>
  The ExactIn formula in the words of the specification: with
  \<open>feeFactor = fee.denominator - fee.numerator\<close>, the floor of the exact quotient
  \<open>amount_in * feeFactor * reserve_out / (reserve_in * fee.denominator + amount_in * feeFactor)\<close>.
  It is compared with the function translated from the source below.
\<close>

definition spec_amount_out :: "int \<Rightarrow> int \<Rightarrow> int \<Rightarrow> Fraction \<Rightarrow> int" where
  "spec_amount_out amount_in reserve_in reserve_out fee =
     (let feeFactor = denominator fee - numerator fee in
      \<lfloor>real_of_int (amount_in * feeFactor * reserve_out) /
       real_of_int (reserve_in * denominator fee + amount_in * feeFactor)\<rfloor>)"

section \<open>Pool address derivation\<close>

text \<open>
  Addresses and hashes are byte strings. \<^verbatim>\<open>HexBytes\<close> is a subclass of Python's
  \<^verbatim>\<open>bytes\<close>, whose comparison is lexicographic on unsigned byte values, a proper
  prefix being smaller: the order of \<^typ>\<open>8 word list\<close>.
\<close>

type_synonym bytes = "8 word list"

text \<open>
  \<^verbatim>\<open>
  sorted_token_addresses = sorted([HexBytes(address) for address in token_addresses])
  salt = keccak(eth_abi.packed.encode_packed(("address", "address"), sorted_token_addresses))
  return create2_address(deployer=deployer_address, salt=salt, init_code_hash=init_hash)
  \<close>
  The token addresses are taken as the byte strings \<^verbatim>\<open>HexBytes\<close> makes of them.
  \<^verbatim>\<open>keccak\<close> (eth_utils), \<^verbatim>\<open>encode_packed\<close> (eth_abi) and
  \<^verbatim>\<open>create2_address\<close> (degenbot.functions) are not part of
  \<^verbatim>\<open>v2_functions.py\<close> and are parameters; the encoder and \<^verbatim>\<open>create2_address\<close>
  may raise, the hash may not. Python's \<^verbatim>\<open>sorted\<close> is a stable sort, as
  \<^const>\<open>sort\<close> is.
\<close>

definition generate_v2_pool_address ::
  "(bytes \<Rightarrow> bytes) \<Rightarrow> (bytes list \<Rightarrow> 'e + bytes) \<Rightarrow> (bytes \<Rightarrow> bytes \<Rightarrow> bytes \<Rightarrow> 'e + 'r) \<Rightarrow>
   bytes \<Rightarrow> bytes list \<Rightarrow> bytes \<Rightarrow> 'e + 'r" where
  "generate_v2_pool_address keccak encode_packed create2_address
       deployer_address token_addresses init_hash =
     (let sorted_token_addresses = sort token_addresses in
      case encode_packed sorted_token_addresses of
        Inl e \<Rightarrow> Inl e
      | Inr packed \<Rightarrow> create2_address deployer_address (keccak packed) init_hash)"

section \<open>Path resolution\<close>

text \<open>\<^verbatim>\<open>itertools.pairwise\<close>: the consecutive overlapping pairs of a sequence.\<close>

fun itertools_pairwise :: "'a list \<Rightarrow> ('a \<times> 'a) list" where
  "itertools_pairwise (x # y # zs) = (x, y) # itertools_pairwise (y # zs)"
| "itertools_pairwise zs = []"

text \<open>
  \<^verbatim>\<open>
  result = []
  for token_addresses in itertools.pairwise(tx_path):
      pool = pool_manager.get_pool_from_tokens(token_addresses=token_addresses, silent=True)
      result.append(pool)
  return result
  \<close>
  The pool manager is an object outside \<^verbatim>\<open>v2_functions.py\<close>: its method is the
  parameter \<open>get_pool_from_tokens\<close> (with \<^verbatim>\<open>silent=True\<close> fixed), which reads and
  may change the manager's state \<open>'s\<close> and either raises (\<open>Inl\<close>) or returns a pool.
  An exception is not caught by the loop, so it ends the function. Beside the outcome and
  the manager's final state, the model returns the lookups made, in order.
  (\<^verbatim>\<open>TYPE_CHECKING\<close> is false at run time, so the \<^verbatim>\<open>assert\<close> never runs.)
\<close>

fun resolve_loop ::
  "('a \<times> 'a \<Rightarrow> 's \<Rightarrow> ('e + 'p) \<times> 's) \<Rightarrow> ('a \<times> 'a) list \<Rightarrow> 'p list \<Rightarrow> ('a \<times> 'a) list \<Rightarrow> 's \<Rightarrow>
   ('e + 'p list) \<times> ('a \<times> 'a) list \<times> 's" where
  "resolve_loop get_pool_from_tokens [] result calls s = (Inr result, calls, s)"
| "resolve_loop get_pool_from_tokens (token_addresses # rest) result calls s =
     (case get_pool_from_tokens token_addresses s of
        (Inl e, s') \<Rightarrow> (Inl e, calls @ [token_addresses], s')
      | (Inr pool, s') \<Rightarrow>
          resolve_loop get_pool_from_tokens rest (result @ [pool]) (calls @ [token_addresses]) s')"

definition get_v2_pools_from_token_path ::
  "'a list \<Rightarrow> ('a \<times> 'a \<Rightarrow> 's \<Rightarrow> ('e + 'p) \<times> 's) \<Rightarrow> 's \<Rightarrow> ('e + 'p list) \<times> ('a \<times> 'a) list \<times> 's" where
  "get_v2_pools_from_token_path tx_path get_pool_from_tokens s =
     resolve_loop get_pool_from_tokens (itertools_pairwise tx_path) [] [] s"

section \<open>Floor division\<close>

lemma div_mult_le_self:
  fixes a b :: int
  assumes "0 < b"
  shows "(a div b) * b \<le> a"
proof -
  have "a = (a div b) * b + a mod b" by simp
  moreover have "0 \<le> a mod b" using assms by simp
  ultimately show ?thesis by linarith
qed

lemma lt_div_succ_mult:
  fixes a b :: int
  assumes "0 < b"
  shows "a < (a div b + 1) * b"
proof -
  have "a = (a div b) * b + a mod b" by simp
  moreover have "a mod b < b" using assms by simp
  moreover have "(a div b + 1) * b = (a div b) * b + b" by (simp add: algebra_simps)
  ultimately show ?thesis by linarith
qed

lemma le_div_iff_mult_le:
  fixes a b q :: int
  assumes "0 < b"
  shows "q \<le> a div b \<longleftrightarrow> q * b \<le> a"
proof
  assume "q \<le> a div b"
  then have "q * b \<le> (a div b) * b" using assms by (simp add: mult_right_mono)
  also have "\<dots> \<le> a" using assms by (rule div_mult_le_self)
  finally show "q * b \<le> a" .
next
  assume h: "q * b \<le> a"
  show "q \<le> a div b"
  proof (rule ccontr)
    assume "\<not> q \<le> a div b"
    then have "a div b + 1 \<le> q" by simp
    then have "(a div b + 1) * b \<le> q * b" using assms by (simp add: mult_right_mono)
    moreover have "a < (a div b + 1) * b" using assms by (rule lt_div_succ_mult)
    ultimately show False using h by linarith
  qed
qed

lemma exact_in_divisor_pos:
  assumes "0 \<le> amount_in" and "0 < reserves_in"
    and "numerator fee \<le> denominator fee" and "0 < denominator fee"
  shows "0 < reserves_in * denominator fee + amount_in * (denominator fee - numerator fee)"
proof -
  have "0 < reserves_in * denominator fee" using assms by simp
  moreover have "0 \<le> amount_in * (denominator fee - numerator fee)" using assms by simp
  ultimately show ?thesis by linarith
qed

lemma exact_in_value:
  assumes "0 \<le> amount_in" and "0 < reserves_in"
    and "numerator fee \<le> denominator fee" and "0 < denominator fee"
  shows "constant_product_calc_exact_in amount_in reserves_in reserves_out fee =
    Inr ((amount_in * (denominator fee - numerator fee) * reserves_out) div
         (reserves_in * denominator fee + amount_in * (denominator fee - numerator fee)))"
proof -
  have "0 < reserves_in * denominator fee + amount_in * (denominator fee - numerator fee)"
    using assms by (rule exact_in_divisor_pos)
  then show ?thesis
    by (simp add: constant_product_calc_exact_in_def floordiv_def)
qed

lemma exact_in_quotient_le_reserve:
  fixes a g ro ri d :: int
  assumes "0 \<le> a" and "0 \<le> g" and "0 \<le> ro" and "0 < ri * d + a * g" and "0 \<le> ri * d"
  shows "(a * g * ro) div (ri * d + a * g) \<le> ro"
proof -
  have "a * g \<le> ri * d + a * g" using assms by simp
  then have "(a * g) * ro \<le> (ri * d + a * g) * ro"
    using assms(3) by (rule mult_right_mono)
  then have "(a * g * ro) div (ri * d + a * g) \<le> ((ri * d + a * g) * ro) div (ri * d + a * g)"
    using assms(4) by (intro zdiv_mono1) simp_all
  also have "\<dots> = ro" using assms(4) by simp
  finally show ?thesis .
qed

lemma exact_in_quotient_mono:
  fixes a1 a2 g ro ri d :: int
  assumes "0 \<le> a1" and "a1 \<le> a2" and "0 \<le> g" and "0 \<le> ro" and "0 < ri * d"
  shows "(a1 * g * ro) div (ri * d + a1 * g) \<le> (a2 * g * ro) div (ri * d + a2 * g)"
proof -
  let ?q = "(a1 * g * ro) div (ri * d + a1 * g)"
  have D1: "0 < ri * d + a1 * g" using assms by (simp add: add_pos_nonneg)
  have D2: "0 < ri * d + a2 * g" using assms by (simp add: add_pos_nonneg)
  have q_le: "?q \<le> ro" using assms D1 by (intro exact_in_quotient_le_reserve) simp_all
  have q1: "?q * (ri * d + a1 * g) \<le> a1 * g * ro" using D1 by (rule div_mult_le_self)
  have "0 \<le> (a2 - a1) * g" using assms by simp
  then have "?q * ((a2 - a1) * g) \<le> ro * ((a2 - a1) * g)"
    using q_le by (simp add: mult_right_mono)
  then have "?q * (ri * d + a1 * g) + ?q * ((a2 - a1) * g) \<le> a1 * g * ro + ro * ((a2 - a1) * g)"
    using q1 by linarith
  moreover have "?q * (ri * d + a1 * g) + ?q * ((a2 - a1) * g) = ?q * (ri * d + a2 * g)"
    by (simp add: algebra_simps)
  moreover have "a1 * g * ro + ro * ((a2 - a1) * g) = a2 * g * ro"
    by (simp add: algebra_simps)
  ultimately have "?q * (ri * d + a2 * g) \<le> a2 * g * ro" by simp
  then show ?thesis using D2 by (simp add: le_div_iff_mult_le)
qed

lemma round_trip_out_bounds:
  fixes a g d ri ro :: int
  assumes "0 < a" and "0 < g" and "0 < d" and "0 < ri" and "0 < ro"
  shows "0 \<le> (a * g * ro) div (ri * d + a * g)"
    and "(a * g * ro) div (ri * d + a * g) < ro"
proof -
  have D: "0 < ri * d + a * g" using assms by (simp add: add_pos_pos)
  have N: "0 \<le> a * g * ro" using assms by simp
  show "0 \<le> (a * g * ro) div (ri * d + a * g)"
    using D N by (simp add: pos_imp_zdiv_nonneg_iff)
  have "0 < ro * (ri * d)" using assms by simp
  moreover have "ro * (ri * d + a * g) = ro * (ri * d) + a * g * ro"
    by (simp add: algebra_simps)
  ultimately have "\<not> ro * (ri * d + a * g) \<le> a * g * ro" by linarith
  then have "\<not> ro \<le> (a * g * ro) div (ri * d + a * g)"
    using D by (simp add: le_div_iff_mult_le)
  then show "(a * g * ro) div (ri * d + a * g) < ro" by simp
qed

lemma round_trip_quote_bounds:
  fixes a g d ri ro out :: int
  assumes "0 < a" and "0 < g" and "0 < d" and "0 < ri" and "0 < ro"
    and out: "out = (a * g * ro) div (ri * d + a * g)"
  shows "0 \<le> (ri * out * d) div ((ro - out) * g)"
    and "(ri * out * d) div ((ro - out) * g) \<le> a"
proof -
  have D: "0 < ri * d + a * g" using assms by (simp add: add_pos_pos)
  have o0: "0 \<le> out" and o1: "out < ro"
    unfolding out using assms(1-5) by (rule round_trip_out_bounds)+
  have E: "0 < (ro - out) * g" using o1 assms by simp
  have "0 \<le> ri * out * d" using o0 assms by simp
  then show "0 \<le> (ri * out * d) div ((ro - out) * g)"
    using E by (simp add: pos_imp_zdiv_nonneg_iff)
  have "out * (ri * d + a * g) \<le> a * g * ro"
    unfolding out using D by (rule div_mult_le_self)
  moreover have "out * (ri * d + a * g) = ri * out * d + a * g * out"
    by (simp add: algebra_simps)
  moreover have "a * ((ro - out) * g) = a * g * ro - a * g * out"
    by (simp add: algebra_simps)
  ultimately have "ri * out * d \<le> a * ((ro - out) * g)" by linarith
  then have "(ri * out * d) div ((ro - out) * g) \<le> (a * ((ro - out) * g)) div ((ro - out) * g)"
    using E by (intro zdiv_mono1) simp_all
  also have "\<dots> = a"
  proof (rule nonzero_mult_div_cancel_right)
    show "(ro - out) * g \<noteq> 0" using E by linarith
  qed
  finally show "(ri * out * d) div ((ro - out) * g) \<le> a" .
qed

lemma round_trip_quote_suffices:
  fixes g d ri ro out q :: int
  assumes "0 < g" and "0 < d" and "0 < ri" and "0 \<le> out" and "out < ro"
    and q: "q = (ri * out * d) div ((ro - out) * g)" and "0 \<le> q"
  shows "out \<le> ((1 + q) * g * ro) div (ri * d + (1 + q) * g)"
proof -
  have E: "0 < (ro - out) * g" using assms by simp
  have D: "0 < ri * d + (1 + q) * g" using assms by (simp add: add_pos_pos)
  have "ri * out * d < (q + 1) * ((ro - out) * g)"
    unfolding q using E by (rule lt_div_succ_mult)
  moreover have "(q + 1) * ((ro - out) * g) = (1 + q) * g * ro - (1 + q) * g * out"
    by (simp add: algebra_simps)
  moreover have "out * (ri * d + (1 + q) * g) = ri * out * d + (1 + q) * g * out"
    by (simp add: algebra_simps)
  ultimately have "out * (ri * d + (1 + q) * g) \<le> (1 + q) * g * ro" by linarith
  then show ?thesis using D by (simp only: le_div_iff_mult_le)
qed

section \<open>Sorting a pair, consecutive pairs, and the resolution loop\<close>

lemma sort_pair_commute:
  fixes a b :: "'a :: linorder"
  shows "sort [a, b] = sort [b, a]"
  by (cases "a \<le> b"; cases "b \<le> a") auto

lemma itertools_pairwise_length: "length (itertools_pairwise xs) = length xs - 1"
  by (induction xs rule: itertools_pairwise.induct) simp_all

lemma itertools_pairwise_nth:
  "Suc i < length xs \<Longrightarrow> itertools_pairwise xs ! i = (xs ! i, xs ! Suc i)"
proof (induction xs arbitrary: i rule: itertools_pairwise.induct)
  case (1 x y zs)
  then show ?case by (cases i) simp_all
qed simp_all

lemma itertools_pairwise_take:
  "itertools_pairwise (take (Suc i) xs) = take i (itertools_pairwise xs)"
proof (induction xs arbitrary: i rule: itertools_pairwise.induct)
  case (1 x y zs)
  then show ?case by (cases i) simp_all
qed simp_all

lemma take_itertools_pairwise_map:
  assumes "i < length xs"
  shows "take i (itertools_pairwise xs) = map (\<lambda>j. (xs ! j, xs ! Suc j)) [0..<i]"
proof (rule nth_equalityI)
  show "length (take i (itertools_pairwise xs)) = length (map (\<lambda>j. (xs ! j, xs ! Suc j)) [0..<i])"
    using assms by (simp add: itertools_pairwise_length)
next
  fix k assume "k < length (take i (itertools_pairwise xs))"
  then have k: "k < i" by simp
  then have "Suc k < length xs" using assms by simp
  then show "take i (itertools_pairwise xs) ! k = map (\<lambda>j. (xs ! j, xs ! Suc j)) [0..<i] ! k"
    using k by (simp add: itertools_pairwise_nth)
qed

lemma resolve_loop_success_calls:
  "resolve_loop f ps r c s = (Inr r', c', s') \<Longrightarrow> c' = c @ ps"
proof (induction ps arbitrary: r c s)
  case Nil
  then show ?case by simp
next
  case (Cons p ps)
  then show ?case by (fastforce split: prod.splits sum.splits)
qed

lemma resolve_loop_append:
  "resolve_loop f pre r c s = (Inr r', c', s') \<Longrightarrow>
   resolve_loop f (pre @ rest) r c s = resolve_loop f rest r' c' s'"
proof (induction pre arbitrary: r c s)
  case Nil
  then show ?case by simp
next
  case (Cons p pre)
  then show ?case by (auto split: prod.splits sum.splits)
qed

section \<open>Exact input with an empty input reserve\<close>

text \<open>
  C9. With \<open>reserves_in = 0\<close>, a positive \<open>amount_in\<close>, a non-negative \<open>reserves_out\<close> and a
  fee whose numerator is below its denominator, \<open>constant_product_calc_exact_in\<close> raises
  nothing and returns exactly \<open>reserves_out\<close>.
\<close>

theorem exact_in_zero_reserve_in_returns_reserve_out:
  assumes "0 < amount_in" and "0 \<le> reserves_out"
    and "0 \<le> numerator fee" and "numerator fee < denominator fee"
  shows "constant_product_calc_exact_in amount_in 0 reserves_out fee = Inr reserves_out"
proof -
  have "amount_in * (denominator fee - numerator fee) \<noteq> 0"
    using assms by simp
  then show ?thesis
    by (simp add: constant_product_calc_exact_in_def floordiv_def)
qed

theorem exact_in_zero_reserve_in_witness:
  "constant_product_calc_exact_in 5 0 7 \<lparr>numerator = 3, denominator = 1000\<rparr> = Inr 7"
  using exact_in_zero_reserve_in_returns_reserve_out
    [of 5 7 "\<lparr>numerator = 3, denominator = 1000\<rparr>"]
  by simp

section \<open>Exact input: the floor formula\<close>

text \<open>
  C4. For \<open>amount_in \<ge> 0\<close>, \<open>reserves_in > 0\<close>, \<open>reserves_out \<ge> 0\<close> and a fee with
  \<open>0 \<le> numerator \<le> denominator\<close>, \<open>denominator > 0\<close>, \<open>constant_product_calc_exact_in\<close>
  raises nothing and returns the floor of
  \<open>amount_in * feeFactor * reserves_out / (reserves_in * denominator + amount_in * feeFactor)\<close>;
  the result is non-negative and equals the quotient truncated toward zero (\<open>sdiv\<close>); for
  \<open>amount_in = 0\<close> it is \<open>0\<close>.
\<close>

theorem exact_in_matches_floor_formula:
  assumes "0 \<le> amount_in" and "0 < reserves_in" and "0 \<le> reserves_out"
    and "0 \<le> numerator fee" and "numerator fee \<le> denominator fee" and "0 < denominator fee"
  shows "constant_product_calc_exact_in amount_in reserves_in reserves_out fee
           = Inr (spec_amount_out amount_in reserves_in reserves_out fee)
       \<and> spec_amount_out amount_in reserves_in reserves_out fee
           = (amount_in * (denominator fee - numerator fee) * reserves_out) sdiv
             (reserves_in * denominator fee + amount_in * (denominator fee - numerator fee))
       \<and> 0 \<le> spec_amount_out amount_in reserves_in reserves_out fee
       \<and> (amount_in = 0 \<longrightarrow>
            constant_product_calc_exact_in amount_in reserves_in reserves_out fee = Inr 0)"
proof -
  let ?N = "amount_in * (denominator fee - numerator fee) * reserves_out"
  let ?D = "reserves_in * denominator fee + amount_in * (denominator fee - numerator fee)"
  have D: "0 < ?D" using assms by (intro exact_in_divisor_pos) simp_all
  have N: "0 \<le> ?N" using assms by simp
  have spec: "spec_amount_out amount_in reserves_in reserves_out fee = ?N div ?D"
    unfolding spec_amount_out_def Let_def by (rule floor_divide_of_int_eq)
  have code: "constant_product_calc_exact_in amount_in reserves_in reserves_out fee = Inr (?N div ?D)"
    using D by (simp add: constant_product_calc_exact_in_def floordiv_def)
  have trunc: "?N sdiv ?D = ?N div ?D"
    using D N by (simp add: signed_divide_int_def sgn_if)
  have nonneg: "0 \<le> ?N div ?D"
    using D N by (simp add: pos_imp_zdiv_nonneg_iff)
  have c1: "constant_product_calc_exact_in amount_in reserves_in reserves_out fee
      = Inr (spec_amount_out amount_in reserves_in reserves_out fee)"
    using code spec by simp
  have c2: "spec_amount_out amount_in reserves_in reserves_out fee = ?N sdiv ?D"
    using spec trunc by simp
  have c3: "0 \<le> spec_amount_out amount_in reserves_in reserves_out fee"
    using spec nonneg by simp
  have c4: "amount_in = 0 \<longrightarrow>
      constant_product_calc_exact_in amount_in reserves_in reserves_out fee = Inr 0"
  proof
    assume z: "amount_in = 0"
    have "?N div ?D = 0" unfolding z by simp
    then show "constant_product_calc_exact_in amount_in reserves_in reserves_out fee = Inr 0"
      using code by simp
  qed
  from c1 c2 c3 c4 show ?thesis by blast
qed

theorem exact_in_matches_floor_formula_witness:
  "constant_product_calc_exact_in 1000 1000000 1000000 \<lparr>numerator = 3, denominator = 1000\<rparr> = Inr 996
   \<and> spec_amount_out 1000 1000000 1000000 \<lparr>numerator = 3, denominator = 1000\<rparr> = 996
   \<and> constant_product_calc_exact_in 0 1000000 1000000 \<lparr>numerator = 3, denominator = 1000\<rparr> = Inr 0"
  using exact_in_matches_floor_formula [of 1000 1000000 1000000 "\<lparr>numerator = 3, denominator = 1000\<rparr>"]
    exact_in_matches_floor_formula [of 0 1000000 1000000 "\<lparr>numerator = 3, denominator = 1000\<rparr>"]
  by (simp add: signed_divide_int_def)

section \<open>Exact output beyond the output reserve\<close>

text \<open>
  C8. For \<open>reserves_in > 0\<close>, \<open>reserves_out > 0\<close>, \<open>amount_out > reserves_out\<close> and a fee with
  \<open>0 \<le> numerator < denominator\<close>, \<open>constant_product_calc_exact_out\<close> raises nothing and
  returns a value that is at most \<open>0\<close>: the dividend is positive and the divisor negative,
  so the floored quotient is at most \<open>-1\<close>.
\<close>

theorem exact_out_beyond_reserve_nonpositive:
  assumes "0 < reserves_in" and "0 < reserves_out" and "reserves_out < amount_out"
    and "0 \<le> numerator fee" and "numerator fee < denominator fee"
  shows "\<exists>x. constant_product_calc_exact_out amount_out reserves_in reserves_out fee = Inr x \<and> x \<le> 0"
proof -
  let ?N = "reserves_in * amount_out * denominator fee"
  let ?D = "(reserves_out - amount_out) * (denominator fee - numerator fee)"
  have D: "?D < 0" using assms by (simp add: mult_neg_pos)
  have N: "0 < ?N" using assms by simp
  have "?N div ?D < 0" using N D by (simp only: neg_imp_zdiv_neg_iff)
  then have "1 + ?N div ?D \<le> 0" by simp
  moreover have "constant_product_calc_exact_out amount_out reserves_in reserves_out fee
      = Inr (1 + ?N div ?D)"
    using assms by (simp add: constant_product_calc_exact_out_def floordiv_def)
  ultimately show ?thesis by simp
qed

theorem exact_out_beyond_reserve_witness:
  "constant_product_calc_exact_out 5 10 3 \<lparr>numerator = 3, denominator = 1000\<rparr> = Inr (- 25)"
  using exact_out_beyond_reserve_nonpositive [of 10 3 5 "\<lparr>numerator = 3, denominator = 1000\<rparr>"]
  by (simp add: constant_product_calc_exact_out_def floordiv_def)

section \<open>Exact input is monotone in the amount\<close>

text \<open>
  C6. For fixed \<open>reserves_in > 0\<close>, \<open>reserves_out \<ge> 0\<close> and a fee with
  \<open>0 \<le> numerator \<le> denominator\<close>, \<open>denominator > 0\<close>, the output of
  \<open>constant_product_calc_exact_in\<close> is non-decreasing in \<open>amount_in\<close>: for
  \<open>0 \<le> a1 \<le> a2\<close> both calls return and the output at \<open>a1\<close> is at most the output at \<open>a2\<close>.
\<close>

theorem exact_in_monotone:
  assumes "0 < reserves_in" and "0 \<le> reserves_out"
    and "0 \<le> numerator fee" and "numerator fee \<le> denominator fee" and "0 < denominator fee"
    and "0 \<le> a1" and "a1 \<le> a2"
  shows "\<exists>out1 out2.
           constant_product_calc_exact_in a1 reserves_in reserves_out fee = Inr out1
         \<and> constant_product_calc_exact_in a2 reserves_in reserves_out fee = Inr out2
         \<and> out1 \<le> out2"
proof -
  have "0 \<le> a2" using assms by linarith
  then have v2: "constant_product_calc_exact_in a2 reserves_in reserves_out fee =
    Inr ((a2 * (denominator fee - numerator fee) * reserves_out) div
         (reserves_in * denominator fee + a2 * (denominator fee - numerator fee)))"
    using assms by (intro exact_in_value) simp_all
  have v1: "constant_product_calc_exact_in a1 reserves_in reserves_out fee =
    Inr ((a1 * (denominator fee - numerator fee) * reserves_out) div
         (reserves_in * denominator fee + a1 * (denominator fee - numerator fee)))"
    using assms by (intro exact_in_value) simp_all
  have "(a1 * (denominator fee - numerator fee) * reserves_out) div
         (reserves_in * denominator fee + a1 * (denominator fee - numerator fee))
     \<le> (a2 * (denominator fee - numerator fee) * reserves_out) div
         (reserves_in * denominator fee + a2 * (denominator fee - numerator fee))"
    using assms by (intro exact_in_quotient_mono) simp_all
  with v1 v2 show ?thesis by simp
qed

theorem exact_in_monotone_witness:
  "constant_product_calc_exact_in 1000 1000000 1000000 \<lparr>numerator = 3, denominator = 1000\<rparr> = Inr 996
   \<and> constant_product_calc_exact_in 2000 1000000 1000000 \<lparr>numerator = 3, denominator = 1000\<rparr> = Inr 1990
   \<and> (996 :: int) \<le> 1990"
  using exact_in_monotone [of 1000000 1000000 "\<lparr>numerator = 3, denominator = 1000\<rparr>" 1000 2000]
  by (simp add: constant_product_calc_exact_in_def floordiv_def)

section \<open>Rounding safety of the exact-output inverse\<close>

text \<open>
  C1 as stated: for \<open>amount_in > 0\<close>, positive reserves and \<open>0 \<le> numerator < denominator\<close>,
  with \<open>out\<close> the result of \<open>constant_product_calc_exact_in\<close>, the call
  \<open>constant_product_calc_exact_out out (reserves_in + amount_in) (reserves_out - out) fee\<close>
  returns at least \<open>amount_in\<close>. This fails: an input of \<open>10\<close> into reserves \<open>(1000, 199)\<close>
  at fee \<open>3/1000\<close> buys \<open>1\<close>, and the inverse on the post-swap reserves \<open>(1010, 198)\<close>
  quotes \<open>6\<close>, which is below \<open>10\<close>: the output was rounded down from about \<open>1.96\<close>.
\<close>

theorem rounding_safety_post_swap_counterexample:
  "constant_product_calc_exact_in 10 1000 199 \<lparr>numerator = 3, denominator = 1000\<rparr> = Inr 1
   \<and> constant_product_calc_exact_out 1 (1000 + 10) (199 - 1) \<lparr>numerator = 3, denominator = 1000\<rparr>
       = Inr 6
   \<and> \<not> (10 :: int) \<le> 6"
  by (simp add: constant_product_calc_exact_in_def constant_product_calc_exact_out_def floordiv_def)

text \<open>
  C1, amended. On the same (pre-swap) reserves the inverse is safe: for \<open>amount_in > 0\<close>,
  positive reserves and \<open>0 \<le> numerator < denominator\<close>, the output \<open>out\<close> of
  \<open>constant_product_calc_exact_in\<close> satisfies \<open>0 \<le> out < reserves_out\<close>; the quote
  \<open>x = constant_product_calc_exact_out out reserves_in reserves_out fee\<close> is returned with
  \<open>1 \<le> x \<le> amount_in + 1\<close>; and paying \<open>x\<close> buys at least \<open>out\<close>, so the \<open>+1\<close> bias
  never under-quotes the input needed for that output.
\<close>

theorem exact_out_inverts_exact_in_on_same_reserves:
  assumes "0 < amount_in" and "0 < reserves_in" and "0 < reserves_out"
    and "0 \<le> numerator fee" and "numerator fee < denominator fee"
  shows "\<exists>out x y.
           constant_product_calc_exact_in amount_in reserves_in reserves_out fee = Inr out
         \<and> 0 \<le> out \<and> out < reserves_out
         \<and> constant_product_calc_exact_out out reserves_in reserves_out fee = Inr x
         \<and> 1 \<le> x \<and> x \<le> amount_in + 1
         \<and> constant_product_calc_exact_in x reserves_in reserves_out fee = Inr y
         \<and> out \<le> y"
proof -
  let ?g = "denominator fee - numerator fee"
  let ?d = "denominator fee"
  define out where "out = (amount_in * ?g * reserves_out) div (reserves_in * ?d + amount_in * ?g)"
  define q where "q = (reserves_in * out * ?d) div ((reserves_out - out) * ?g)"
  have g: "0 < ?g" and d: "0 < ?d" using assms by simp_all
  have o0: "0 \<le> out" and o1: "out < reserves_out"
    unfolding out_def using assms(1) g d assms(2,3) by (rule round_trip_out_bounds)+
  have q0: "0 \<le> q" and q1: "q \<le> amount_in"
    unfolding q_def using assms(1) g d assms(2,3) out_def by (rule round_trip_quote_bounds)+
  have suff: "out \<le> ((1 + q) * ?g * reserves_out) div (reserves_in * ?d + (1 + q) * ?g)"
    using g d assms(2) o0 o1 q_def q0 by (rule round_trip_quote_suffices)
  have c1: "constant_product_calc_exact_in amount_in reserves_in reserves_out fee = Inr out"
    unfolding out_def using assms by (intro exact_in_value) simp_all
  have "(reserves_out - out) * ?g \<noteq> 0" using o1 g by simp
  then have c2: "constant_product_calc_exact_out out reserves_in reserves_out fee = Inr (1 + q)"
    unfolding q_def by (simp add: constant_product_calc_exact_out_def floordiv_def)
  have c3: "constant_product_calc_exact_in (1 + q) reserves_in reserves_out fee =
      Inr (((1 + q) * ?g * reserves_out) div (reserves_in * ?d + (1 + q) * ?g))"
    using q0 assms by (intro exact_in_value) simp_all
  have "1 \<le> 1 + q" and "1 + q \<le> amount_in + 1" using q0 q1 by simp_all
  with c1 c2 c3 o0 o1 suff show ?thesis by blast
qed

theorem exact_out_inverts_exact_in_witness:
  "constant_product_calc_exact_in 1000 1000000 1000000 \<lparr>numerator = 3, denominator = 1000\<rparr> = Inr 996
   \<and> constant_product_calc_exact_out 996 1000000 1000000 \<lparr>numerator = 3, denominator = 1000\<rparr> = Inr 1000
   \<and> (1000 :: int) \<le> 1000 + 1
   \<and> (996 :: int) \<le> 996"
  using exact_out_inverts_exact_in_on_same_reserves
    [of 1000 1000000 1000000 "\<lparr>numerator = 3, denominator = 1000\<rparr>"]
  by (simp add: constant_product_calc_exact_in_def constant_product_calc_exact_out_def floordiv_def)

section \<open>Exact output at or beyond the output reserve\<close>

text \<open>
  C2 as stated: for \<open>amount_out \<ge> reserves_out\<close>, positive reserves and a valid fee,
  \<open>constant_product_calc_exact_out\<close> fails with \<open>InsufficientReserve\<close> instead of returning.
  The function has no such check: beyond the reserve it returns a number, and at the
  reserve the failure is Python's \<open>ZeroDivisionError\<close>.
\<close>

theorem exact_out_insufficient_reserve_counterexample:
  "(5 :: int) \<le> 7
   \<and> constant_product_calc_exact_out 7 10 5 \<lparr>numerator = 3, denominator = 1000\<rparr> = Inr (- 35)
   \<and> constant_product_calc_exact_out 5 10 5 \<lparr>numerator = 3, denominator = 1000\<rparr> = Inl ZeroDivisionError"
  by (simp add: constant_product_calc_exact_out_def floordiv_def)

text \<open>
  C2, amended. For \<open>amount_out \<ge> reserves_out\<close>, positive reserves and a fee with
  \<open>0 \<le> numerator \<le> denominator\<close>, \<open>denominator > 0\<close>: when \<open>amount_out = reserves_out\<close> or
  \<open>numerator = denominator\<close> the call raises \<open>ZeroDivisionError\<close>; when
  \<open>amount_out > reserves_out\<close> and \<open>numerator < denominator\<close> it raises nothing and returns a
  value that is at most \<open>0\<close>.
\<close>

theorem exact_out_at_or_beyond_reserve:
  assumes "0 < reserves_in" and "0 < reserves_out" and "reserves_out \<le> amount_out"
    and "0 \<le> numerator fee" and "numerator fee \<le> denominator fee" and "0 < denominator fee"
  shows "(amount_out = reserves_out \<or> numerator fee = denominator fee \<longrightarrow>
            constant_product_calc_exact_out amount_out reserves_in reserves_out fee
              = Inl ZeroDivisionError)
       \<and> (reserves_out < amount_out \<and> numerator fee < denominator fee \<longrightarrow>
            (\<exists>x. constant_product_calc_exact_out amount_out reserves_in reserves_out fee = Inr x
                 \<and> x \<le> 0))"
proof (intro conjI impI)
  assume "amount_out = reserves_out \<or> numerator fee = denominator fee"
  then have "(reserves_out - amount_out) * (denominator fee - numerator fee) = 0" by auto
  then show "constant_product_calc_exact_out amount_out reserves_in reserves_out fee
      = Inl ZeroDivisionError"
    by (simp add: constant_product_calc_exact_out_def floordiv_def)
next
  let ?N = "reserves_in * amount_out * denominator fee"
  let ?D = "(reserves_out - amount_out) * (denominator fee - numerator fee)"
  assume h: "reserves_out < amount_out \<and> numerator fee < denominator fee"
  then have D: "?D < 0" by (simp add: mult_neg_pos)
  have "0 < amount_out" using h assms by linarith
  then have N: "0 < ?N" using assms by simp
  have "?N div ?D < 0" using N D by (simp only: neg_imp_zdiv_neg_iff)
  then have "1 + ?N div ?D \<le> 0" by simp
  moreover have "constant_product_calc_exact_out amount_out reserves_in reserves_out fee
      = Inr (1 + ?N div ?D)"
    using h by (simp add: constant_product_calc_exact_out_def floordiv_def)
  ultimately show "\<exists>x. constant_product_calc_exact_out amount_out reserves_in reserves_out fee = Inr x
      \<and> x \<le> 0"
    by simp
qed

theorem exact_out_at_or_beyond_reserve_witness:
  "constant_product_calc_exact_out 5 10 5 \<lparr>numerator = 3, denominator = 1000\<rparr> = Inl ZeroDivisionError
   \<and> constant_product_calc_exact_out 7 10 5 \<lparr>numerator = 1, denominator = 1\<rparr> = Inl ZeroDivisionError
   \<and> (\<exists>x. constant_product_calc_exact_out 7 10 5 \<lparr>numerator = 3, denominator = 1000\<rparr> = Inr x \<and> x \<le> 0)"
  using exact_out_at_or_beyond_reserve [of 10 5 5 "\<lparr>numerator = 3, denominator = 1000\<rparr>"]
    exact_out_at_or_beyond_reserve [of 10 5 7 "\<lparr>numerator = 1, denominator = 1\<rparr>"]
    exact_out_at_or_beyond_reserve [of 10 5 7 "\<lparr>numerator = 3, denominator = 1000\<rparr>"]
  by simp

section \<open>Swaps against a zero reserve\<close>

text \<open>
  C3 as stated: either swap function fails with \<open>UninitializedPool\<close> when \<open>reserves_in = 0\<close>
  or \<open>reserves_out = 0\<close>. Neither function tests its reserves; with a zero reserve both
  return numbers.
\<close>

theorem uninitialized_pool_counterexample:
  "constant_product_calc_exact_in 4 0 9 \<lparr>numerator = 3, denominator = 1000\<rparr> = Inr 9
   \<and> constant_product_calc_exact_in 4 9 0 \<lparr>numerator = 3, denominator = 1000\<rparr> = Inr 0
   \<and> constant_product_calc_exact_out 1 0 5 \<lparr>numerator = 3, denominator = 1000\<rparr> = Inr 1
   \<and> constant_product_calc_exact_out 1 5 0 \<lparr>numerator = 3, denominator = 1000\<rparr> = Inr (- 5)"
  by (simp add: constant_product_calc_exact_in_def constant_product_calc_exact_out_def floordiv_def)

text \<open>
  C3, amended. For a fee with \<open>0 \<le> numerator < denominator\<close> the functions evaluate their
  formulas on a zero reserve and fail only with \<open>ZeroDivisionError\<close>, when the divisor is zero:
  \<^item> exact input, \<open>reserves_in = 0\<close>: returns \<open>reserves_out\<close> for \<open>amount_in > 0\<close>, raises
    \<open>ZeroDivisionError\<close> for \<open>amount_in = 0\<close>;
  \<^item> exact input, \<open>reserves_out = 0\<close>, \<open>reserves_in > 0\<close>, \<open>amount_in \<ge> 0\<close>: returns \<open>0\<close>;
  \<^item> exact output, \<open>reserves_in = 0\<close>: returns \<open>1\<close> whenever \<open>amount_out \<noteq> reserves_out\<close>;
  \<^item> exact output, \<open>reserves_out = 0\<close>: raises \<open>ZeroDivisionError\<close> for \<open>amount_out = 0\<close>, and
    for \<open>amount_out > 0\<close>, \<open>reserves_in > 0\<close> returns a value that is at most \<open>0\<close>.
\<close>

theorem zero_reserve_evaluates_formula:
  assumes "0 \<le> numerator fee" and "numerator fee < denominator fee"
  shows "(0 < amount_in \<longrightarrow>
            constant_product_calc_exact_in amount_in 0 reserves_out fee = Inr reserves_out)
       \<and> constant_product_calc_exact_in 0 0 reserves_out fee = Inl ZeroDivisionError
       \<and> (0 \<le> amount_in \<and> 0 < reserves_in \<longrightarrow>
            constant_product_calc_exact_in amount_in reserves_in 0 fee = Inr 0)
       \<and> (amount_out \<noteq> reserves_out \<longrightarrow>
            constant_product_calc_exact_out amount_out 0 reserves_out fee = Inr 1)
       \<and> constant_product_calc_exact_out 0 reserves_in 0 fee = Inl ZeroDivisionError
       \<and> (0 < amount_out \<and> 0 < reserves_in \<longrightarrow>
            (\<exists>x. constant_product_calc_exact_out amount_out reserves_in 0 fee = Inr x \<and> x \<le> 0))"
proof -
  let ?g = "denominator fee - numerator fee"
  have g: "0 < ?g" and d: "0 < denominator fee" using assms by simp_all
  have a: "0 < amount_in \<longrightarrow>
      constant_product_calc_exact_in amount_in 0 reserves_out fee = Inr reserves_out"
  proof
    assume "0 < amount_in"
    then have "amount_in * ?g \<noteq> 0" using g by simp
    then show "constant_product_calc_exact_in amount_in 0 reserves_out fee = Inr reserves_out"
      by (simp add: constant_product_calc_exact_in_def floordiv_def)
  qed
  have b: "constant_product_calc_exact_in 0 0 reserves_out fee = Inl ZeroDivisionError"
    by (simp add: constant_product_calc_exact_in_def floordiv_def)
  have c: "0 \<le> amount_in \<and> 0 < reserves_in \<longrightarrow>
      constant_product_calc_exact_in amount_in reserves_in 0 fee = Inr 0"
  proof
    assume h: "0 \<le> amount_in \<and> 0 < reserves_in"
    then have "constant_product_calc_exact_in amount_in reserves_in 0 fee =
        Inr ((amount_in * ?g * 0) div (reserves_in * denominator fee + amount_in * ?g))"
      using assms d by (intro exact_in_value) simp_all
    then show "constant_product_calc_exact_in amount_in reserves_in 0 fee = Inr 0" by simp
  qed
  have dd: "amount_out \<noteq> reserves_out \<longrightarrow>
      constant_product_calc_exact_out amount_out 0 reserves_out fee = Inr 1"
    using g by (simp add: constant_product_calc_exact_out_def floordiv_def)
  have e: "constant_product_calc_exact_out 0 reserves_in 0 fee = Inl ZeroDivisionError"
    by (simp add: constant_product_calc_exact_out_def floordiv_def)
  have f: "0 < amount_out \<and> 0 < reserves_in \<longrightarrow>
      (\<exists>x. constant_product_calc_exact_out amount_out reserves_in 0 fee = Inr x \<and> x \<le> 0)"
  proof
    let ?N = "reserves_in * amount_out * denominator fee"
    let ?D = "(0 - amount_out) * ?g"
    assume h: "0 < amount_out \<and> 0 < reserves_in"
    then have D: "?D < 0" using g by (simp add: mult_neg_pos)
    have N: "0 < ?N" using h d by simp
    have "?N div ?D < 0" using N D by (simp only: neg_imp_zdiv_neg_iff)
    then have "1 + ?N div ?D \<le> 0" by simp
    moreover have "constant_product_calc_exact_out amount_out reserves_in 0 fee = Inr (1 + ?N div ?D)"
      using h g by (simp add: constant_product_calc_exact_out_def floordiv_def)
    ultimately show "\<exists>x. constant_product_calc_exact_out amount_out reserves_in 0 fee = Inr x \<and> x \<le> 0"
      by simp
  qed
  from a b c dd e f show ?thesis by blast
qed

theorem zero_reserve_evaluates_formula_witness:
  "constant_product_calc_exact_in 4 0 9 \<lparr>numerator = 3, denominator = 1000\<rparr> = Inr 9
   \<and> constant_product_calc_exact_in 0 0 9 \<lparr>numerator = 3, denominator = 1000\<rparr> = Inl ZeroDivisionError
   \<and> constant_product_calc_exact_in 4 6 0 \<lparr>numerator = 3, denominator = 1000\<rparr> = Inr 0
   \<and> constant_product_calc_exact_out 2 0 9 \<lparr>numerator = 3, denominator = 1000\<rparr> = Inr 1
   \<and> constant_product_calc_exact_out 0 6 0 \<lparr>numerator = 3, denominator = 1000\<rparr> = Inl ZeroDivisionError
   \<and> (\<exists>x. constant_product_calc_exact_out 2 6 0 \<lparr>numerator = 3, denominator = 1000\<rparr> = Inr x \<and> x \<le> 0)"
  using zero_reserve_evaluates_formula [of "\<lparr>numerator = 3, denominator = 1000\<rparr>" 4 9 6 2]
  by simp

section \<open>Pool address derivation is independent of token order\<close>

text \<open>
  C5. For every deployer address, init-code hash and pair of token addresses \<open>A\<close>, \<open>B\<close> (in
  particular 20-byte ones), \<open>generate_v2_pool_address\<close> gives the same outcome for \<open>[A, B]\<close>
  and \<open>[B, A]\<close>, whatever the hash, the packed encoder and \<open>create2_address\<close> compute:
  the tokens are sorted before anything else reads them.
\<close>

theorem generate_v2_pool_address_order_independent:
  "generate_v2_pool_address keccak encode_packed create2_address deployer_address [A, B] init_hash
   = generate_v2_pool_address keccak encode_packed create2_address deployer_address [B, A] init_hash"
  unfolding generate_v2_pool_address_def sort_pair_commute [of A B] ..

text \<open>
  An instance with two 20-byte addresses; the three external functions are replaced by
  simple stand-ins so that the result can be evaluated.
\<close>

theorem generate_v2_pool_address_order_independent_witness:
  "generate_v2_pool_address rev (\<lambda>xs. Inr (concat xs)) (\<lambda>d s h. Inr (d @ s @ h)) [0x5C]
     [[0xC0, 0x2A, 0xAA, 0x39, 0xB2, 0x23, 0xFE, 0x8D, 0x0A, 0x0E, 0x5C, 0x4F, 0x27, 0xEA, 0xD9, 0x08, 0x3C, 0x75, 0x6C, 0xC2],
      [0xA0, 0xB8, 0x69, 0x91, 0xC6, 0x21, 0x8B, 0x36, 0xC1, 0xD1, 0x9D, 0x4A, 0x2E, 0x9E, 0xB0, 0xCE, 0x36, 0x06, 0xEB, 0x48]]
     [0x96]
   = (Inr (0x5C # rev ([0xA0, 0xB8, 0x69, 0x91, 0xC6, 0x21, 0x8B, 0x36, 0xC1, 0xD1, 0x9D, 0x4A, 0x2E, 0x9E, 0xB0, 0xCE, 0x36, 0x06, 0xEB, 0x48]
            @ [0xC0, 0x2A, 0xAA, 0x39, 0xB2, 0x23, 0xFE, 0x8D, 0x0A, 0x0E, 0x5C, 0x4F, 0x27, 0xEA, 0xD9, 0x08, 0x3C, 0x75, 0x6C, 0xC2]) @ [0x96]) :: error + bytes)
   \<and> generate_v2_pool_address rev (\<lambda>xs. Inr (concat xs)) (\<lambda>d s h. Inr (d @ s @ h)) [0x5C]
     [[0xA0, 0xB8, 0x69, 0x91, 0xC6, 0x21, 0x8B, 0x36, 0xC1, 0xD1, 0x9D, 0x4A, 0x2E, 0x9E, 0xB0, 0xCE, 0x36, 0x06, 0xEB, 0x48],
      [0xC0, 0x2A, 0xAA, 0x39, 0xB2, 0x23, 0xFE, 0x8D, 0x0A, 0x0E, 0x5C, 0x4F, 0x27, 0xEA, 0xD9, 0x08, 0x3C, 0x75, 0x6C, 0xC2]]
     [0x96]
   = (Inr (0x5C # rev ([0xA0, 0xB8, 0x69, 0x91, 0xC6, 0x21, 0x8B, 0x36, 0xC1, 0xD1, 0x9D, 0x4A, 0x2E, 0x9E, 0xB0, 0xCE, 0x36, 0x06, 0xEB, 0x48]
            @ [0xC0, 0x2A, 0xAA, 0x39, 0xB2, 0x23, 0xFE, 0x8D, 0x0A, 0x0E, 0x5C, 0x4F, 0x27, 0xEA, 0xD9, 0x08, 0x3C, 0x75, 0x6C, 0xC2]) @ [0x96]) :: error + bytes)"
  using generate_v2_pool_address_order_independent
    [of rev "\<lambda>xs. Inr (concat xs) :: error + bytes" "\<lambda>d s h. Inr (d @ s @ h) :: error + bytes"
        "[0x5C]"
        "[0xC0, 0x2A, 0xAA, 0x39, 0xB2, 0x23, 0xFE, 0x8D, 0x0A, 0x0E, 0x5C, 0x4F, 0x27, 0xEA, 0xD9, 0x08, 0x3C, 0x75, 0x6C, 0xC2]"
        "[0xA0, 0xB8, 0x69, 0x91, 0xC6, 0x21, 0x8B, 0x36, 0xC1, 0xD1, 0x9D, 0x4A, 0x2E, 0x9E, 0xB0, 0xCE, 0x36, 0x06, 0xEB, 0x48]"
        "[0x96]"]
  by (simp add: generate_v2_pool_address_def)

section \<open>Path resolution stops at the first failing lookup\<close>

text \<open>
  C7. Let hop \<open>i\<close> be the first one whose lookup fails: resolving the route cut after token
  \<open>i\<close> succeeds (leaving the manager in state \<open>s1\<close>), and the lookup of
  \<open>(tx_path[i], tx_path[i+1])\<close> in \<open>s1\<close> raises \<open>e\<close>. Then \<open>get_v2_pools_from_token_path\<close> on
  the whole route fails with that same \<open>e\<close> (so with whatever identification of the pair the
  manager's error carries), the lookups made are exactly those of hops \<open>0..i\<close>, none after
  \<open>i\<close>, and no list of pools is returned.
\<close>

theorem path_resolution_fails_fast:
  assumes "Suc i < length tx_path"
    and "get_v2_pools_from_token_path (take (Suc i) tx_path) get_pool_from_tokens s0
           = (Inr pools, calls, s1)"
    and "get_pool_from_tokens (tx_path ! i, tx_path ! Suc i) s1 = (Inl e, s2)"
  shows "get_v2_pools_from_token_path tx_path get_pool_from_tokens s0
           = (Inl e, map (\<lambda>j. (tx_path ! j, tx_path ! Suc j)) [0..<Suc i], s2)"
proof -
  let ?P = "itertools_pairwise tx_path"
  have len: "i < length ?P" using assms(1) by (simp add: itertools_pairwise_length)
  have pre: "resolve_loop get_pool_from_tokens (take i ?P) [] [] s0 = (Inr pools, calls, s1)"
    using assms(2) by (simp add: get_v2_pools_from_token_path_def itertools_pairwise_take)
  then have calls: "calls = take i ?P" using resolve_loop_success_calls by fastforce
  have nth: "?P ! i = (tx_path ! i, tx_path ! Suc i)"
    using assms(1) by (rule itertools_pairwise_nth)
  have "?P = take i ?P @ ?P ! i # drop (Suc i) ?P"
    using len by (rule id_take_nth_drop)
  then have split: "?P = take i ?P @ (tx_path ! i, tx_path ! Suc i) # drop (Suc i) ?P"
    by (simp only: nth)
  have "resolve_loop get_pool_from_tokens ?P [] [] s0
      = resolve_loop get_pool_from_tokens
          ((tx_path ! i, tx_path ! Suc i) # drop (Suc i) ?P) pools calls s1"
    using resolve_loop_append [OF pre, of "(tx_path ! i, tx_path ! Suc i) # drop (Suc i) ?P"]
    by (simp only: split [symmetric])
  also have "\<dots> = (Inl e, calls @ [(tx_path ! i, tx_path ! Suc i)], s2)"
    using assms(3) by simp
  also have "calls @ [(tx_path ! i, tx_path ! Suc i)] = take (Suc i) ?P"
    using calls len nth by (simp add: take_Suc_conv_app_nth)
  also have "take (Suc i) ?P = map (\<lambda>j. (tx_path ! j, tx_path ! Suc j)) [0..<Suc i]"
    using assms(1) by (rule take_itertools_pairwise_map)
  finally show ?thesis by (simp add: get_v2_pools_from_token_path_def)
qed

theorem path_resolution_fails_fast_witness:
  "get_v2_pools_from_token_path [1 :: nat, 2, 3, 4]
     (\<lambda>p s. if p = (2, 3) then (Inl p, Suc s) else (Inr (fst p + snd p), Suc s)) (0 :: nat)
   = (Inl (2, 3), [(1, 2), (2, 3)], 2)"
  using path_resolution_fails_fast
    [of 1 "[1 :: nat, 2, 3, 4]"
        "\<lambda>p s. if p = (2, 3) then (Inl p, Suc s) else (Inr (fst p + snd p), Suc s)"
        "0 :: nat" "[3]" "[(1, 2)]" 1 "(2, 3)" 2]
  by (simp add: get_v2_pools_from_token_path_def)

section \<open>Routes with fewer than two tokens\<close>

text \<open>
  C10. For a route of length \<open>0\<close> or \<open>1\<close>, \<open>get_v2_pools_from_token_path\<close> returns the empty
  list, makes no lookup and leaves the manager's state unchanged; it does not fail.
\<close>

theorem short_route_resolves_to_empty:
  assumes "length tx_path < 2"
  shows "get_v2_pools_from_token_path tx_path get_pool_from_tokens s = (Inr [], [], s)"
proof (cases tx_path)
  case Nil
  then show ?thesis by (simp add: get_v2_pools_from_token_path_def)
next
  case (Cons x rest)
  then have "rest = []" using assms by simp
  with Cons show ?thesis by (simp add: get_v2_pools_from_token_path_def)
qed

theorem short_route_resolves_to_empty_witness:
  "get_v2_pools_from_token_path ([] :: nat list) (\<lambda>p s. (Inl p, Suc s)) (0 :: nat)
     = (Inr ([] :: nat list), [], 0)
   \<and> get_v2_pools_from_token_path [7 :: nat] (\<lambda>p s. (Inl p, Suc s)) (0 :: nat)
     = (Inr ([] :: nat list), [], 0)"
  using short_route_resolves_to_empty [of "[] :: nat list" "\<lambda>p s. (Inl p, Suc s)" "0 :: nat"]
    short_route_resolves_to_empty [of "[7 :: nat]" "\<lambda>p s. (Inl p, Suc s)" "0 :: nat"]
  by simp

end
